theory Spec2Isabelle
  imports Complex_Main
begin

section \<open>Tensors and the operations of the tensor library that the module calls\<close>

text \<open>
  The module \<^verbatim>\<open>deepchem/models/torch_models/hnn.py\<close> works on tensors. A tensor is
  modelled by its shape, its elements in row-major order and its \<^verbatim>\<open>requires_grad\<close>
  flag. The element type \<open>'a\<close> stands for the network's numeric type; rounding is not
  modelled, the elements are only negated, summed, moved and handed to the network.
  Every exception that a call of the source can raise is a value of \<open>error\<close>.

  The tensor library has an ambient gradient mode (\<^verbatim>\<open>torch.is_grad_enabled()\<close>,
  switched off inside \<^verbatim>\<open>torch.no_grad()\<close>). The source never sets it, so the functions
  of the module take it as their first argument \<open>grad_mode\<close>.
\<close>

datatype error =
    ShapeMismatch
  | IndexError
  | NotScalarOutput
  | NoGradFn
  | InputNoGrad
  | NotInGraph
  | CatMismatch
  | NumpyRequiresGrad

record 'a tensor =
  shape :: "nat list"
  data :: "'a list"
  requires_grad :: bool

text \<open>A host array (\<^verbatim>\<open>np.ndarray\<close>) has a shape and elements, and no gradient flag.\<close>

record 'b ndarray =
  nd_shape :: "nat list"
  nd_data :: "'b list"

definition wf_tensor :: "'a tensor \<Rightarrow> bool" where
  "wf_tensor t \<longleftrightarrow> length (data t) = prod_list (shape t)"

text \<open>
  The operations of the source act on the last axis. \<open>rows n w xs\<close> cuts the row-major
  elements \<open>xs\<close> into \<open>n\<close> consecutive rows of width \<open>w\<close>; a tensor of shape
  \<open>(d1, ..., dm, w)\<close> has \<open>d1 * ... * dm\<close> such rows.
\<close>

fun rows :: "nat \<Rightarrow> nat \<Rightarrow> 'a list \<Rightarrow> 'a list list" where
  "rows 0 w xs = []"
| "rows (Suc n) w xs = take w xs # rows n w (drop w xs)"

definition n_rows :: "'a tensor \<Rightarrow> nat" where
  "n_rows t = prod_list (butlast (shape t))"

definition tensor_rows :: "'a tensor \<Rightarrow> 'a list list" where
  "tensor_rows t = rows (n_rows t) (last (shape t)) (data t)"

text \<open>\<^verbatim>\<open>t[r, j]\<close> for a row index \<open>r\<close> (over the flattened leading axes) and a column \<open>j\<close>.\<close>

definition entry :: "'a tensor \<Rightarrow> nat \<Rightarrow> nat \<Rightarrow> 'a" where
  "entry t r j = tensor_rows t ! r ! j"

text \<open>
  \<^verbatim>\<open>z.requires_grad_(True)\<close> changes the flag of the object it is called on and returns
  that same object: the value below is both the caller's tensor after the call and the
  tensor the local name is bound to.
\<close>

definition set_requires_grad :: "bool \<Rightarrow> 'a tensor \<Rightarrow> 'a tensor" where
  "set_requires_grad b t = t\<lparr>requires_grad := b\<rparr>"

text \<open>\<^verbatim>\<open>t.squeeze(-1)\<close> drops the last axis when its size is 1 and is the identity otherwise.\<close>

definition squeeze_last :: "'a tensor \<Rightarrow> 'a tensor" where
  "squeeze_last t =
     (if shape t \<noteq> [] \<and> last (shape t) = 1 then t\<lparr>shape := butlast (shape t)\<rparr> else t)"

text \<open>\<^verbatim>\<open>t.sum()\<close>: the 0-dimensional tensor holding the sum of all elements.\<close>

definition tsum :: "('a::monoid_add) tensor \<Rightarrow> 'a tensor" where
  "tsum t = \<lparr>shape = [], data = [sum_list (data t)], requires_grad = requires_grad t\<rparr>"

text \<open>\<^verbatim>\<open>-t\<close>\<close>

definition neg :: "('a::uminus) tensor \<Rightarrow> 'a tensor" where
  "neg t = t\<lparr>data := map uminus (data t)\<rparr>"

text \<open>
  \<^verbatim>\<open>t[..., :d]\<close> and \<^verbatim>\<open>t[..., d:]\<close>. Indexing the last axis of a 0-dimensional
  tensor raises \<^verbatim>\<open>IndexError\<close>; a bound beyond the width is clipped, as Python slices are.
\<close>

definition slice_to :: "nat \<Rightarrow> 'a tensor \<Rightarrow> error + 'a tensor" where
  "slice_to d t =
     (if shape t = [] then Inl IndexError
      else Inr (t\<lparr>shape := butlast (shape t) @ [min d (last (shape t))],
                  data := concat (map (take d) (tensor_rows t))\<rparr>))"

definition slice_from :: "nat \<Rightarrow> 'a tensor \<Rightarrow> error + 'a tensor" where
  "slice_from d t =
     (if shape t = [] then Inl IndexError
      else Inr (t\<lparr>shape := butlast (shape t) @ [last (shape t) - d],
                  data := concat (map (drop d) (tensor_rows t))\<rparr>))"

text \<open>
  \<^verbatim>\<open>torch.cat([a, b], dim=-1)\<close>: both tensors need an axis to join on and the same
  leading axes; the rows are joined pairwise.
\<close>

definition cat_last :: "'a tensor \<Rightarrow> 'a tensor \<Rightarrow> error + 'a tensor" where
  "cat_last a b =
     (if shape a = [] \<or> shape b = [] \<or> butlast (shape a) \<noteq> butlast (shape b)
      then Inl CatMismatch
      else Inr \<lparr>shape = butlast (shape a) @ [last (shape a) + last (shape b)],
                data = concat (map2 (@) (tensor_rows a) (tensor_rows b)),
                requires_grad = (requires_grad a \<or> requires_grad b)\<rparr>)"

text \<open>\<^verbatim>\<open>torch.tensor(X, dtype=torch.float32)\<close> with the conversion \<open>conv\<close> to the tensor's type.\<close>

definition torch_tensor :: "('b \<Rightarrow> 'a) \<Rightarrow> 'b ndarray \<Rightarrow> 'a tensor" where
  "torch_tensor conv X = \<lparr>shape = nd_shape X, data = map conv (nd_data X), requires_grad = False\<rparr>"

definition detach :: "'a tensor \<Rightarrow> 'a tensor" where
  "detach t = t\<lparr>requires_grad := False\<rparr>"

text \<open>\<^verbatim>\<open>t.cpu()\<close>: devices are not modelled, the elements are the same on each.\<close>

definition cpu :: "'a tensor \<Rightarrow> 'a tensor" where
  "cpu t = t"

text \<open>
  \<open>host_values t\<close> is the host array with the shape and the elements of \<open>t\<close>.
  \<^verbatim>\<open>t.numpy()\<close> returns it, and refuses a tensor that is tracked for gradients.
\<close>

definition host_values :: "'a tensor \<Rightarrow> 'a ndarray" where
  "host_values t = \<lparr>nd_shape = shape t, nd_data = data t\<rparr>"

definition numpy :: "'a tensor \<Rightarrow> error + 'a ndarray" where
  "numpy t = (if requires_grad t then Inl NumpyRequiresGrad else Inr (host_values t))"

section \<open>The network and the differentiation engine\<close>

text \<open>
  \<^verbatim>\<open>MultilayerPerceptron\<close> (\<^verbatim>\<open>deepchem/models/torch_models/layers.py\<close>) and
  \<^verbatim>\<open>torch.autograd.grad\<close> are used by the module and are parameters here. The
  perceptron is built with \<^verbatim>\<open>d_output=1\<close> and acts on the last axis: it maps every row of
  width \<open>d_input\<close> to one number, \<open>value_fn\<close>. The differentiation engine returns the
  gradient of that number with respect to the row, \<open>grad_fn\<close>. \<open>trainable\<close> says whether the
  parameters of the network are tracked for gradients, and \<open>linear_in_input\<close> whether the
  network is linear in its input, so that its gradient does not depend on the input.
\<close>

record 'a mlp =
  d_input :: nat
  value_fn :: "'a list \<Rightarrow> 'a"
  grad_fn :: "'a list \<Rightarrow> 'a list"
  trainable :: bool
  linear_in_input :: bool

text \<open>The engine returns a gradient of the shape of the input it differentiates by.\<close>

definition mlp_ok :: "'a mlp \<Rightarrow> bool" where
  "mlp_ok m \<longleftrightarrow> (\<forall>r. length r = d_input m \<longrightarrow> length (grad_fn m r) = d_input m)"

text \<open>
  \<^verbatim>\<open>self.net(z)\<close>: a tensor without axes, or with a last axis that is not \<open>d_input\<close>
  wide, is rejected by the first linear layer. The result has the leading axes of \<open>z\<close> and a
  last axis of size 1. It is tracked when the gradient mode is on and \<open>z\<close> or the
  parameters are tracked; with the gradient mode off nothing is recorded and the result is
  not tracked.
\<close>

definition net_call :: "bool \<Rightarrow> 'a mlp \<Rightarrow> 'a tensor \<Rightarrow> error + 'a tensor" where
  "net_call grad_mode m z =
     (if shape z = [] \<or> last (shape z) \<noteq> d_input m then Inl ShapeMismatch
      else Inr \<lparr>shape = butlast (shape z) @ [1],
                data = map (value_fn m) (tensor_rows z),
                requires_grad = (grad_mode \<and> (requires_grad z \<or> trainable m))\<rparr>)"

text \<open>
  \<^verbatim>\<open>grad(y, z, create_graph=True)[0]\<close> where \<open>y\<close> is the sum of the network's
  values on the rows of \<open>z\<close>. The engine refuses a \<open>y\<close> that is not a scalar, a \<open>y\<close> that
  is not tracked, an input that is not tracked and an input that the network cannot have
  been applied to. The sum over the rows has, in row \<open>r\<close>,
  the gradient of the network at row \<open>r\<close>; the result has the shape of \<open>z\<close>. With
  \<^verbatim>\<open>create_graph=True\<close> the engine records how it computes the result, which is
  tracked when it depends on something tracked: on the parameters, or on the tracked input
  when the network is not linear in it. The gradient of a linear network with frozen
  parameters is a constant and is not tracked.
\<close>

definition grad_tensor :: "'a mlp \<Rightarrow> 'a tensor \<Rightarrow> 'a tensor" where
  "grad_tensor m z =
     \<lparr>shape = shape z,
      data = concat (map (grad_fn m) (tensor_rows z)),
      requires_grad = (trainable m \<or> \<not> linear_in_input m)\<rparr>"

definition autograd_grad :: "'a mlp \<Rightarrow> 'a tensor \<Rightarrow> 'a tensor \<Rightarrow> error + 'a tensor" where
  "autograd_grad m y z =
     (if shape y \<noteq> [] then Inl NotScalarOutput
      else if \<not> requires_grad y then Inl NoGradFn
      else if \<not> requires_grad z then Inl InputNoGrad
      else if shape z = [] \<or> last (shape z) \<noteq> d_input m then Inl NotInGraph
      else Inr (grad_tensor m z))"

section \<open>The module HNN\<close>

text \<open>The module owns its network and the mode flag of \<^verbatim>\<open>nn.Module\<close>.\<close>

record 'a hnn =
  net :: "'a mlp"
  training :: bool

definition train :: "'a hnn \<Rightarrow> 'a hnn" where
  "train m = m\<lparr>training := True\<rparr>"

definition eval_mode :: "'a hnn \<Rightarrow> 'a hnn" where
  "eval_mode m = m\<lparr>training := False\<rparr>"

text \<open>\<^verbatim>\<open>HNN.hamiltonian\<close>: \<^verbatim>\<open>H = self.net(z).squeeze(-1); return H\<close>\<close>

definition hamiltonian :: "bool \<Rightarrow> 'a hnn \<Rightarrow> 'a tensor \<Rightarrow> error + 'a tensor" where
  "hamiltonian grad_mode m z =
     (case net_call grad_mode (net m) z of
        Inl e \<Rightarrow> Inl e
      | Inr out \<Rightarrow> Inr (squeeze_last out))"

text \<open>
  \<^verbatim>\<open>HNN.symplectic_gradient\<close>. The second component of the result is the caller's tensor
  object after the call: \<^verbatim>\<open>requires_grad_\<close> works in place, also when a later line
  raises. The slices, the negation and the concatenation are reached only after the engine
  has returned a gradient, which it does only with the gradient mode on.
\<close>

definition symplectic_gradient ::
  "bool \<Rightarrow> ('a::{monoid_add,uminus}) hnn \<Rightarrow> 'a tensor \<Rightarrow> (error + 'a tensor) \<times> 'a tensor" where
  "symplectic_gradient grad_mode m z0 =
     (let z = (if \<not> requires_grad z0 then set_requires_grad True z0 else z0) in
      ((case net_call grad_mode (net m) z of
         Inl e \<Rightarrow> Inl e
       | Inr out \<Rightarrow>
           let H = squeeze_last out in
           (case autograd_grad (net m) (tsum H) z of
              Inl e \<Rightarrow> Inl e
            | Inr grad_H \<Rightarrow>
                if shape z = [] then Inl IndexError
                else
                  let dim = last (shape z) div 2 in
                  (case slice_to dim grad_H of
                     Inl e \<Rightarrow> Inl e
                   | Inr dH_dq \<Rightarrow>
                       (case slice_from dim grad_H of
                          Inl e \<Rightarrow> Inl e
                        | Inr dH_dp \<Rightarrow>
                            let dq_dt = dH_dp; dp_dt = neg dH_dq in
                            cat_last dq_dt dp_dt)))),
       z))"

text \<open>\<^verbatim>\<open>HNN.forward\<close>: \<^verbatim>\<open>return self.symplectic_gradient(z)\<close>\<close>

definition forward ::
  "bool \<Rightarrow> ('a::{monoid_add,uminus}) hnn \<Rightarrow> 'a tensor \<Rightarrow> (error + 'a tensor) \<times> 'a tensor" where
  "forward grad_mode m z = symplectic_gradient grad_mode m z"

section \<open>The wrapper HNNModel\<close>

record 'a hnn_model =
  model :: "'a hnn"

text \<open>
  \<^verbatim>\<open>HNNModel.predict_hamiltonian\<close>. The second component is the wrapper after the call,
  whose module has been switched to evaluation mode.
\<close>

definition predict_hamiltonian ::
  "bool \<Rightarrow> ('b \<Rightarrow> 'a) \<Rightarrow> 'a hnn_model \<Rightarrow> 'b ndarray \<Rightarrow>
     (error + 'a ndarray) \<times> 'a hnn_model" where
  "predict_hamiltonian grad_mode conv self X =
     (let self' = self\<lparr>model := eval_mode (model self)\<rparr>;
          X_tensor = torch_tensor conv X
      in ((case hamiltonian grad_mode (model self') X_tensor of
            Inl e \<Rightarrow> Inl e
          | Inr H \<Rightarrow> numpy (cpu (detach H))),
          self'))"

text \<open>\<^verbatim>\<open>HNNModel.symplectic_gradient\<close> delegates to the module.\<close>

definition model_symplectic_gradient ::
  "bool \<Rightarrow> ('a::{monoid_add,uminus}) hnn_model \<Rightarrow> 'a tensor \<Rightarrow>
     (error + 'a tensor) \<times> 'a tensor" where
  "model_symplectic_gradient grad_mode self z = symplectic_gradient grad_mode (model self) z"

section \<open>A concrete network\<close>

text \<open>
  With \<^verbatim>\<open>d_hidden=()\<close> and an identity activation the perceptron is one linear layer
  \<open>w \<bullet> r + b\<close>, whose gradient is \<open>w\<close> at every row. Its parameters are tracked, as
  those of a new module are.
\<close>

definition linear_net :: "('a::semiring_0) list \<Rightarrow> 'a \<Rightarrow> 'a mlp" where
  "linear_net w b =
     \<lparr>d_input = length w,
      value_fn = (\<lambda>r. sum_list (map2 (*) w r) + b),
      grad_fn = (\<lambda>r. w),
      trainable = True,
      linear_in_input = True\<rparr>"

section \<open>The summed energy as a function of one element\<close>

text \<open>
  \<^verbatim>\<open>H.sum()\<close> is the number that \<^verbatim>\<open>HNN.symplectic_gradient\<close> differentiates.
  \<open>total_energy m z\<close> is its value for the input \<open>z\<close> (the same in either gradient
  mode, and 0 where the network
  rejects \<open>z\<close> and there is no such number), and \<open>set_entry z r j x\<close> is
  \<open>z\<close> with the element in row \<open>r\<close> and column \<open>j\<close> replaced by \<open>x\<close>.
  \<open>partial_derivatives n\<close> says of the network and the engine that, for one row, the
  engine's gradient holds the partial derivatives of the network's value.
\<close>

definition set_entry :: "'a tensor \<Rightarrow> nat \<Rightarrow> nat \<Rightarrow> 'a \<Rightarrow> 'a tensor" where
  "set_entry t r j x = t\<lparr>data := (data t)[r * last (shape t) + j := x]\<rparr>"

definition total_energy :: "real hnn \<Rightarrow> real tensor \<Rightarrow> real" where
  "total_energy m z = (case hamiltonian True m z of Inl e \<Rightarrow> 0 | Inr H \<Rightarrow> sum_list (data (tsum H)))"

definition partial_derivatives :: "real mlp \<Rightarrow> bool" where
  "partial_derivatives n \<longleftrightarrow>
     (\<forall>r j. length r = d_input n \<longrightarrow> j < d_input n \<longrightarrow>
        ((\<lambda>x. value_fn n (r[j := x])) has_field_derivative grad_fn n r ! j) (at (r ! j)))"

section \<open>Concrete inputs\<close>

text \<open>
  A module over a linear network of input width 2, in training mode, with a batch of one
  phase-space point that is not tracked; and one of input width 3 with a tracked batch of
  two rows.
\<close>

definition hnn2 :: "real hnn" where
  "hnn2 = \<lparr>net = linear_net [3, 5] 7, training = True\<rparr>"

definition batch2 :: "real tensor" where
  "batch2 = \<lparr>shape = [1, 2], data = [1/2, -3/10], requires_grad = False\<rparr>"

definition hnn3 :: "real hnn" where
  "hnn3 = \<lparr>net = linear_net [3, 5, 11] 7, training = True\<rparr>"

definition batch3 :: "real tensor" where
  "batch3 = \<lparr>shape = [2, 3], data = [1, 2, 3, 10, 20, 30], requires_grad = True\<rparr>"

text \<open>A wrapper around the first module, and a host array of integers with two rows.\<close>

definition model2 :: "real hnn_model" where
  "model2 = \<lparr>model = hnn2\<rparr>"

definition array2 :: "int ndarray" where
  "array2 = \<lparr>nd_shape = [2, 2], nd_data = [1, 2, 10, 20]\<rparr>"

section \<open>Rows of a tensor\<close>

lemma length_rows: "length (rows n w xs) = n"
  by (induction n arbitrary: xs) simp_all

lemma rows_width: "length xs = n * w \<Longrightarrow> r \<in> set (rows n w xs) \<Longrightarrow> length r = w"
proof (induction n arbitrary: xs)
  case 0
  then show ?case by simp
next
  case (Suc n)
  have rest: "length (drop w xs) = n * w"
    using Suc.prems(1) by simp
  from Suc.prems(2) have "r = take w xs \<or> r \<in> set (rows n w (drop w xs))"
    by simp
  then show ?case
  proof
    assume "r = take w xs"
    then show ?thesis using Suc.prems(1) by simp
  next
    assume "r \<in> set (rows n w (drop w xs))"
    then show ?thesis using Suc.IH [OF rest] by simp
  qed
qed

lemma concat_rows: "length xs = n * w \<Longrightarrow> concat (rows n w xs) = xs"
  by (induction n arbitrary: xs) simp_all

lemma rows_concat: "\<forall>r\<in>set rs. length r = w \<Longrightarrow> rows (length rs) w (concat rs) = rs"
  by (induction rs) simp_all

lemma length_concat_uniform: "\<forall>r\<in>set rs. length r = w \<Longrightarrow> length (concat rs) = length rs * w"
  by (induction rs) simp_all

lemma rows_map: "rows n w (map f xs) = map (map f) (rows n w xs)"
  by (induction n arbitrary: xs) (simp_all add: take_map drop_map)

lemma map2_same: "map2 f (map a xs) (map b xs) = map (\<lambda>x. f (a x) (b x)) xs"
  by (induction xs) simp_all

lemma prod_list_butlast: "s \<noteq> [] \<Longrightarrow> prod_list s = prod_list (butlast s) * last s"
proof -
  assume "s \<noteq> []"
  then have "s = butlast s @ [last s]" by simp
  then have "prod_list s = prod_list (butlast s @ [last s])" by simp
  then show ?thesis by simp
qed

lemma length_tensor_rows: "length (tensor_rows t) = n_rows t"
  by (simp add: tensor_rows_def length_rows)

lemma tensor_rows_width:
  assumes "wf_tensor t" and "shape t \<noteq> []" and "r \<in> set (tensor_rows t)"
  shows "length r = last (shape t)"
proof -
  have "length (data t) = n_rows t * last (shape t)"
    using assms(1,2) by (simp add: wf_tensor_def n_rows_def prod_list_butlast)
  then show ?thesis
    using assms(3) rows_width by (simp add: tensor_rows_def) blast
qed

lemma grad_tensor_flag: "grad_tensor n (z\<lparr>requires_grad := b\<rparr>) = grad_tensor n z"
  by (simp add: grad_tensor_def tensor_rows_def n_rows_def)

lemma sg_steps:
  assumes "shape z \<noteq> []" and "last (shape z) = d_input (net m)"
  shows "\<exists>dH_dq dH_dp.
           slice_to (last (shape z) div 2) (grad_tensor (net m) z) = Inr dH_dq \<and>
           slice_from (last (shape z) div 2) (grad_tensor (net m) z) = Inr dH_dp \<and>
           fst (symplectic_gradient True m z) = cat_last dH_dp (neg dH_dq)"
proof -
  have g: "shape (grad_tensor (net m) z) \<noteq> []"
    using assms(1) by (simp add: grad_tensor_def)
  obtain dq where dq: "slice_to (last (shape z) div 2) (grad_tensor (net m) z) = Inr dq"
    using g by (simp add: slice_to_def)
  obtain dp where dp: "slice_from (last (shape z) div 2) (grad_tensor (net m) z) = Inr dp"
    using g by (simp add: slice_from_def)
  have "fst (symplectic_gradient True m z) = cat_last dp (neg dq)"
    using assms dq dp
    by (simp add: symplectic_gradient_def Let_def net_call_def set_requires_grad_def
        squeeze_last_def tsum_def autograd_grad_def grad_tensor_flag)
  then show ?thesis using dq dp by blast
qed

lemma tensor_rows_eq:
  assumes "shape s = bl @ [w]" and "data s = concat rs"
    and "\<forall>r\<in>set rs. length r = w" and "length rs = prod_list bl"
  shows "tensor_rows s = rs"
  using rows_concat [OF assms(3)] assms(1,2,4) by (simp add: tensor_rows_def n_rows_def)

lemma grad_tensor_rows:
  assumes "wf_tensor z" and "shape z \<noteq> []" and "last (shape z) = d_input n" and "mlp_ok n"
  shows "tensor_rows (grad_tensor n z) = map (grad_fn n) (tensor_rows z)"
proof (rule tensor_rows_eq)
  show "shape (grad_tensor n z) = butlast (shape z) @ [last (shape z)]"
    using assms(2) by (simp add: grad_tensor_def)
  show "data (grad_tensor n z) = concat (map (grad_fn n) (tensor_rows z))"
    by (simp add: grad_tensor_def)
  show "\<forall>r\<in>set (map (grad_fn n) (tensor_rows z)). length r = last (shape z)"
    using assms tensor_rows_width [OF assms(1,2)] by (auto simp: mlp_ok_def)
  show "length (map (grad_fn n) (tensor_rows z)) = prod_list (butlast (shape z))"
    by (simp add: length_tensor_rows n_rows_def)
qed

lemma slice_to_rows:
  assumes "shape t \<noteq> []" and "\<forall>r\<in>set (tensor_rows t). length r = last (shape t)"
    and "slice_to d t = Inr s"
  shows "shape s = butlast (shape t) @ [min d (last (shape t))]"
    and "tensor_rows s = map (take d) (tensor_rows t)"
proof -
  have s: "s = t\<lparr>shape := butlast (shape t) @ [min d (last (shape t))],
                    data := concat (map (take d) (tensor_rows t))\<rparr>"
    using assms(1,3) by (simp add: slice_to_def)
  show sh: "shape s = butlast (shape t) @ [min d (last (shape t))]"
    by (simp add: s)
  show "tensor_rows s = map (take d) (tensor_rows t)"
  proof (rule tensor_rows_eq [OF sh])
    show "data s = concat (map (take d) (tensor_rows t))" by (simp add: s)
    show "\<forall>r\<in>set (map (take d) (tensor_rows t)). length r = min d (last (shape t))"
      using assms(2) by (auto simp: min.commute)
    show "length (map (take d) (tensor_rows t)) = prod_list (butlast (shape t))"
      by (simp add: length_tensor_rows n_rows_def)
  qed
qed

lemma slice_from_rows:
  assumes "shape t \<noteq> []" and "\<forall>r\<in>set (tensor_rows t). length r = last (shape t)"
    and "slice_from d t = Inr s"
  shows "shape s = butlast (shape t) @ [last (shape t) - d]"
    and "tensor_rows s = map (drop d) (tensor_rows t)"
proof -
  have s: "s = t\<lparr>shape := butlast (shape t) @ [last (shape t) - d],
                    data := concat (map (drop d) (tensor_rows t))\<rparr>"
    using assms(1,3) by (simp add: slice_from_def)
  show sh: "shape s = butlast (shape t) @ [last (shape t) - d]"
    by (simp add: s)
  show "tensor_rows s = map (drop d) (tensor_rows t)"
  proof (rule tensor_rows_eq [OF sh])
    show "data s = concat (map (drop d) (tensor_rows t))" by (simp add: s)
    show "\<forall>r\<in>set (map (drop d) (tensor_rows t)). length r = last (shape t) - d"
      using assms(2) by auto
    show "length (map (drop d) (tensor_rows t)) = prod_list (butlast (shape t))"
      by (simp add: length_tensor_rows n_rows_def)
  qed
qed

lemma neg_rows: "tensor_rows (neg t) = map (map uminus) (tensor_rows t)"
  by (simp add: neg_def tensor_rows_def n_rows_def rows_map)

lemma neg_shape: "shape (neg t) = shape t"
  by (simp add: neg_def)

lemma cat_last_rows:
  assumes "shape a \<noteq> []" and "shape b \<noteq> []" and "butlast (shape a) = butlast (shape b)"
    and "\<forall>r\<in>set (tensor_rows a). length r = last (shape a)"
    and "\<forall>r\<in>set (tensor_rows b). length r = last (shape b)"
  shows "\<exists>c. cat_last a b = Inr c \<and>
           shape c = butlast (shape a) @ [last (shape a) + last (shape b)] \<and>
           tensor_rows c = map2 (@) (tensor_rows a) (tensor_rows b) \<and> wf_tensor c"
proof -
  define c where "c = \<lparr>shape = butlast (shape a) @ [last (shape a) + last (shape b)],
                data = concat (map2 (@) (tensor_rows a) (tensor_rows b)),
                requires_grad = (requires_grad a \<or> requires_grad b)\<rparr>"
  have c: "cat_last a b = Inr c"
    using assms(1-3) by (simp add: cat_last_def c_def)
  have sh: "shape c = butlast (shape a) @ [last (shape a) + last (shape b)]"
    by (simp add: c_def)
  have d: "data c = concat (map2 (@) (tensor_rows a) (tensor_rows b))"
    by (simp add: c_def)
  have w: "\<forall>r\<in>set (map2 (@) (tensor_rows a) (tensor_rows b)).
            length r = last (shape a) + last (shape b)"
    using assms(4,5) by (fastforce dest: set_zip_leftD set_zip_rightD)
  have n: "length (map2 (@) (tensor_rows a) (tensor_rows b)) = prod_list (butlast (shape a))"
    using assms(3) by (simp add: length_tensor_rows n_rows_def)
  have "tensor_rows c = map2 (@) (tensor_rows a) (tensor_rows b)"
  proof (rule tensor_rows_eq [OF sh])
    show "data c = concat (map2 (@) (tensor_rows a) (tensor_rows b))" by (rule d)
    show "\<forall>r\<in>set (map2 (@) (tensor_rows a) (tensor_rows b)).
            length r = last (shape a) + last (shape b)" by (rule w)
    show "length (map2 (@) (tensor_rows a) (tensor_rows b)) = prod_list (butlast (shape a))"
      by (rule n)
  qed
  moreover have "wf_tensor c"
  proof -
    have "length (data c) = length (map2 (@) (tensor_rows a) (tensor_rows b)) * (last (shape a) + last (shape b))"
      unfolding d by (rule length_concat_uniform [OF w])
    then show ?thesis
      using n by (simp add: wf_tensor_def sh)
  qed
  ultimately show ?thesis using c sh by blast
qed

lemma sg_shape:
  assumes "shape z \<noteq> []" and "last (shape z) = d_input (net m)"
  shows "\<exists>out. fst (symplectic_gradient True m z) = Inr out \<and> shape out = shape z"
proof -
  obtain dq dp where
    dq: "slice_to (last (shape z) div 2) (grad_tensor (net m) z) = Inr dq" and
    dp: "slice_from (last (shape z) div 2) (grad_tensor (net m) z) = Inr dp" and
    sg: "fst (symplectic_gradient True m z) = cat_last dp (neg dq)"
    using sg_steps [OF assms] by blast
  have g: "shape (grad_tensor (net m) z) = shape z"
    by (simp add: grad_tensor_def)
  have sq: "shape dq = butlast (shape z) @ [min (last (shape z) div 2) (last (shape z))]"
    using dq assms(1) g by (auto simp: slice_to_def)
  have sp: "shape dp = butlast (shape z) @ [last (shape z) - last (shape z) div 2]"
    using dp assms(1) g by (auto simp: slice_from_def)
  have "last (shape z) - last (shape z) div 2 + min (last (shape z) div 2) (last (shape z))
          = last (shape z)"
    by simp
  then have "butlast (shape z) @ [last (shape dp) + last (shape (neg dq))] = shape z"
    using assms(1) by (simp add: sq sp neg_shape)
  then show ?thesis
    using sg by (simp add: cat_last_def sq sp neg_shape)
qed

lemma sg_rows:
  assumes "wf_tensor z" and "shape z \<noteq> []" and "last (shape z) = d_input (net m)"
    and "mlp_ok (net m)"
  shows "\<exists>out. fst (symplectic_gradient True m z) = Inr out \<and> shape out = shape z \<and> wf_tensor out \<and>
           tensor_rows out =
             map (\<lambda>r. drop (last (shape z) div 2) (grad_fn (net m) r) @
                      map uminus (take (last (shape z) div 2) (grad_fn (net m) r)))
                 (tensor_rows z)"
proof -
  let ?k = "last (shape z) div 2"
  let ?g = "grad_tensor (net m) z"
  obtain dq dp where
    dq: "slice_to ?k ?g = Inr dq" and
    dp: "slice_from ?k ?g = Inr dp" and
    sg: "fst (symplectic_gradient True m z) = cat_last dp (neg dq)"
    using sg_steps [OF assms(2,3)] by blast
  have gs: "shape ?g = shape z"
    by (simp add: grad_tensor_def)
  have gr: "tensor_rows ?g = map (grad_fn (net m)) (tensor_rows z)"
    by (rule grad_tensor_rows [OF assms])
  have gw: "\<forall>r\<in>set (tensor_rows ?g). length r = last (shape ?g)"
    using assms tensor_rows_width [OF assms(1,2)] by (auto simp: gr gs mlp_ok_def)
  have gne: "shape ?g \<noteq> []"
    using assms(2) gs by simp
  note q = slice_to_rows [OF gne gw dq]
  note p = slice_from_rows [OF gne gw dp]
  have qw: "\<forall>r\<in>set (tensor_rows (neg dq)). length r = last (shape (neg dq))"
    using gw by (auto simp: neg_rows neg_shape q gs min.commute)
  have pw: "\<forall>r\<in>set (tensor_rows dp). length r = last (shape dp)"
    using gw by (auto simp: p)
  have "\<exists>c. cat_last dp (neg dq) = Inr c \<and>
           shape c = butlast (shape dp) @ [last (shape dp) + last (shape (neg dq))] \<and>
           tensor_rows c = map2 (@) (tensor_rows dp) (tensor_rows (neg dq)) \<and> wf_tensor c"
    by (rule cat_last_rows) (simp_all add: p q neg_shape pw qw)
  then obtain c where c: "cat_last dp (neg dq) = Inr c"
    and cs: "shape c = butlast (shape dp) @ [last (shape dp) + last (shape (neg dq))]"
    and cr: "tensor_rows c = map2 (@) (tensor_rows dp) (tensor_rows (neg dq))"
    and cw: "wf_tensor c"
    by blast
  have "shape c = butlast (shape z) @ [last (shape z)]"
    by (simp add: cs p q neg_shape gs)
  then have s: "shape c = shape z"
    using assms(2) by simp
  have "tensor_rows c =
          map (\<lambda>r. drop ?k (grad_fn (net m) r) @ map uminus (take ?k (grad_fn (net m) r)))
              (tensor_rows z)"
    unfolding cr p q neg_rows gr map_map o_def by (rule map2_same)
  then show ?thesis
    using sg c s cw by simp
qed


section \<open>Failure, the caller's tensor and the energy\<close>


lemma sg_caller_tensor:
  "snd (symplectic_gradient ge m z) = (if requires_grad z then z else z\<lparr>requires_grad := True\<rparr>)"
  by (simp add: symplectic_gradient_def Let_def set_requires_grad_def)



lemma hamiltonian_ok:
  assumes "shape z \<noteq> []" and "last (shape z) = d_input (net m)"
  shows "hamiltonian ge m z =
           Inr \<lparr>shape = butlast (shape z),
                data = map (value_fn (net m)) (tensor_rows z),
                requires_grad = (ge \<and> (requires_grad z \<or> trainable (net m)))\<rparr>"
  using assms by (simp add: hamiltonian_def net_call_def squeeze_last_def)

lemma rows_numeral: "rows (numeral k) w xs = take w xs # rows (pred_numeral k) w (drop w xs)"
  by (simp add: numeral_eq_Suc)

lemma hamiltonian_mode: "hamiltonian ge (m\<lparr>training := b\<rparr>) z = hamiltonian ge m z"
  by (simp add: hamiltonian_def)

lemma autograd_grad_untracked:
  assumes "\<not> requires_grad z"
  shows "\<exists>e. autograd_grad n y z = Inl e"
  using assms by (simp add: autograd_grad_def)

section \<open>Hamilton's equations, row by row\<close>

lemma hamilton_row_nth:
  assumes "length g = 2 * k" and "j < k"
  shows "(drop k g @ map uminus (take k g)) ! j = g ! (k + j)"
    and "(drop k g @ map uminus (take k g)) ! (k + j) = - (g ! j)"
  using assms by (simp_all add: nth_append)

lemma sg_hamilton:
  assumes "wf_tensor z" and "shape z \<noteq> []" and "last (shape z) = 2 * k"
    and "d_input (net m) = 2 * k" and "mlp_ok (net m)"
  shows "\<exists>dH_dq dH_dp out.
           tensor_rows (grad_tensor (net m) z) = map (grad_fn (net m)) (tensor_rows z) \<and>
           slice_to k (grad_tensor (net m) z) = Inr dH_dq \<and>
           slice_from k (grad_tensor (net m) z) = Inr dH_dp \<and>
           tensor_rows dH_dq = map (take k) (tensor_rows (grad_tensor (net m) z)) \<and>
           tensor_rows dH_dp = map (drop k) (tensor_rows (grad_tensor (net m) z)) \<and>
           fst (symplectic_gradient True m z) = cat_last dH_dp (neg dH_dq) \<and>
           fst (symplectic_gradient True m z) = Inr out \<and>
           tensor_rows out =
             map (\<lambda>g. drop k g @ map uminus (take k g)) (tensor_rows (grad_tensor (net m) z)) \<and>
           (\<forall>r<n_rows z. \<forall>j<k.
              entry out r j = entry (grad_tensor (net m) z) r (k + j) \<and>
              entry out r (k + j) = - entry (grad_tensor (net m) z) r j)"
proof -
  let ?g = "grad_tensor (net m) z"
  have w: "last (shape z) = d_input (net m)"
    using assms(3,4) by simp
  have k: "last (shape z) div 2 = k"
    using assms(3) by simp
  obtain dq dp where
    dq: "slice_to k ?g = Inr dq" and
    dp: "slice_from k ?g = Inr dp" and
    sg: "fst (symplectic_gradient True m z) = cat_last dp (neg dq)"
    using sg_steps [OF assms(2) w] unfolding k by blast
  have gs: "shape ?g = shape z"
    by (simp add: grad_tensor_def)
  have gr: "tensor_rows ?g = map (grad_fn (net m)) (tensor_rows z)"
    by (rule grad_tensor_rows [OF assms(1,2) w assms(5)])
  have gw: "\<forall>r\<in>set (tensor_rows ?g). length r = last (shape ?g)"
    using assms(5) w tensor_rows_width [OF assms(1,2)] by (auto simp: gr gs mlp_ok_def)
  have gne: "shape ?g \<noteq> []"
    using assms(2) gs by simp
  obtain out where out: "fst (symplectic_gradient True m z) = Inr out"
    and rows_out: "tensor_rows out =
             map (\<lambda>r. drop k (grad_fn (net m) r) @ map uminus (take k (grad_fn (net m) r)))
                 (tensor_rows z)"
    using sg_rows [OF assms(1,2) w assms(5)] unfolding k by blast
  have ro: "tensor_rows out = map (\<lambda>g. drop k g @ map uminus (take k g)) (tensor_rows ?g)"
    by (simp add: rows_out gr o_def)
  have ent: "\<forall>r<n_rows z. \<forall>j<k.
              entry out r j = entry ?g r (k + j) \<and> entry out r (k + j) = - entry ?g r j"
  proof (intro allI impI)
    fix r j
    assume r: "r < n_rows z" and j: "j < k"
    have rl: "r < length (tensor_rows ?g)"
      using r by (simp add: gr length_tensor_rows)
    then have "tensor_rows ?g ! r \<in> set (tensor_rows ?g)"
      by simp
    then have len: "length (tensor_rows ?g ! r) = 2 * k"
      using gw gs assms(3) by simp
    have "tensor_rows out ! r =
            drop k (tensor_rows ?g ! r) @ map uminus (take k (tensor_rows ?g ! r))"
      using rl by (simp add: ro)
    then show "entry out r j = entry ?g r (k + j) \<and> entry out r (k + j) = - entry ?g r j"
      using hamilton_row_nth [OF len j] by (simp add: entry_def)
  qed
  show ?thesis
    using gr dq dp slice_to_rows(2) [OF gne gw dq] slice_from_rows(2) [OF gne gw dp] sg out ro ent
    by blast
qed

section \<open>The engine's gradient is the gradient of the summed energy\<close>

lemma rows_update:
  assumes "r < n" and "j < w"
  shows "rows n w (xs[r * w + j := x]) = (rows n w xs)[r := (rows n w xs ! r)[j := x]]"
  using assms
proof (induction n arbitrary: xs r)
  case 0
  then show ?case by simp
next
  case (Suc n)
  show ?case
  proof (cases r)
    case 0
    then show ?thesis
      using Suc.prems(2) by (simp add: take_update_swap)
  next
    case (Suc r')
    then have r': "r' < n"
      using Suc.prems(1) by simp
    have "drop w (xs[w + (r' * w + j) := x]) = (drop w xs)[r' * w + j := x]"
      by (simp add: drop_update_swap)
    then show ?thesis
      using Suc Suc.IH [OF r' Suc.prems(2)] by (simp add: add.assoc)
  qed
qed

lemma sum_list_map_update:
  fixes f :: "'b \<Rightarrow> real"
  assumes "r < length rs"
  shows "sum_list (map f (rs[r := a])) =
           sum_list (map f (take r rs)) + f a + sum_list (map f (drop (Suc r) rs))"
  using assms by (simp add: upd_conv_take_nth_drop)

lemma total_energy_set_entry:
  assumes "shape z \<noteq> []" and "last (shape z) = d_input (net m)"
    and "r < n_rows z" and "j < d_input (net m)"
  shows "total_energy m (set_entry z r j x) =
           sum_list (map (value_fn (net m)) (take r (tensor_rows z))) +
           value_fn (net m) ((tensor_rows z ! r)[j := x]) +
           sum_list (map (value_fn (net m)) (drop (Suc r) (tensor_rows z)))"
proof -
  have s: "shape (set_entry z r j x) = shape z"
    by (simp add: set_entry_def)
  have j: "j < last (shape z)"
    using assms(2,4) by simp
  have rows': "tensor_rows (set_entry z r j x) = (tensor_rows z)[r := (tensor_rows z ! r)[j := x]]"
    using rows_update [OF assms(3) j] by (simp add: tensor_rows_def n_rows_def set_entry_def)
  have "hamiltonian True m (set_entry z r j x) =
          Inr \<lparr>shape = butlast (shape z),
               data = map (value_fn (net m)) (tensor_rows (set_entry z r j x)),
               requires_grad = (requires_grad (set_entry z r j x) \<or> trainable (net m))\<rparr>"
    using hamiltonian_ok [where z = "set_entry z r j x" and m = m and ge = True] assms(1,2)
    by (simp add: s)
  then have "total_energy m (set_entry z r j x) =
               sum_list (map (value_fn (net m)) ((tensor_rows z)[r := (tensor_rows z ! r)[j := x]]))"
    by (simp add: total_energy_def tsum_def rows')
  then show ?thesis
    using assms(3) by (simp add: sum_list_map_update length_tensor_rows)
qed

lemma grad_tensor_is_gradient_of_sum:
  assumes "wf_tensor z" and "shape z \<noteq> []" and "last (shape z) = d_input (net m)"
    and "mlp_ok (net m)" and "partial_derivatives (net m)"
    and "r < n_rows z" and "j < d_input (net m)"
  shows "((\<lambda>x. total_energy m (set_entry z r j x)) has_field_derivative
            entry (grad_tensor (net m) z) r j) (at (entry z r j))"
proof -
  let ?row = "tensor_rows z ! r"
  have rl: "r < length (tensor_rows z)"
    using assms(6) by (simp add: length_tensor_rows)
  then have "?row \<in> set (tensor_rows z)"
    by simp
  then have len: "length ?row = d_input (net m)"
    using tensor_rows_width [OF assms(1,2)] assms(3) by simp
  have d: "((\<lambda>x. value_fn (net m) (?row[j := x])) has_field_derivative
              grad_fn (net m) ?row ! j) (at (?row ! j))"
    using assms(5,7) len by (simp add: partial_derivatives_def)
  have g: "entry (grad_tensor (net m) z) r j = grad_fn (net m) ?row ! j"
    using rl by (simp add: entry_def grad_tensor_rows [OF assms(1-4)])
  have e: "entry z r j = ?row ! j"
    by (simp add: entry_def)
  have "((\<lambda>x. sum_list (map (value_fn (net m)) (take r (tensor_rows z))) +
              value_fn (net m) (?row[j := x]) +
              sum_list (map (value_fn (net m)) (drop (Suc r) (tensor_rows z))))
          has_field_derivative grad_fn (net m) ?row ! j) (at (?row ! j))"
    by (auto intro!: derivative_eq_intros d)
  then show ?thesis
    unfolding g e total_energy_set_entry [OF assms(2,3,6,7)] .
qed

lemma linear_net2_partial_derivatives: "partial_derivatives (linear_net [a, b] c)"
proof -
  have "((\<lambda>x. value_fn (linear_net [a, b] c) (r[j := x])) has_field_derivative
           grad_fn (linear_net [a, b] c) r ! j) (at (r ! j))"
    if len: "length r = 2" and jlt: "j < 2" for r j
  proof -
    obtain u r' where r1: "r = u # r'" and l: "length r' = 1"
      using len by (cases r) simp_all
    obtain v where r2: "r' = [v]"
      using l by (cases r') simp_all
    have r: "r = [u, v]"
      by (simp add: r1 r2)
    have d0: "((\<lambda>x. a * x + b * v + c) has_field_derivative a) (at u)"
      by (auto intro!: derivative_eq_intros)
    have d1: "((\<lambda>x. a * u + b * x + c) has_field_derivative b) (at v)"
      by (auto intro!: derivative_eq_intros)
    consider "j = 0" | "j = 1"
      using jlt by linarith
    then show ?thesis
    proof cases
      case 1
      then show ?thesis
        using d0 by (simp add: r linear_net_def)
    next
      case 2
      then show ?thesis
        using d1 by (simp add: r linear_net_def)
    qed
  qed
  then show ?thesis
    by (simp add: partial_derivatives_def linear_net_def)
qed

section \<open>The claims\<close>

text \<open>
  Claim C1. The documentation of \<^verbatim>\<open>HNN.forward\<close> says that in evaluation mode
  the call returns the energy \<^verbatim>\<open>hamiltonian(z)\<close>, of shape \<open>(N,)\<close>. The body
  never reads the mode: for the module in evaluation mode and one phase-space point the
  call (with the gradient mode on, as by default) returns the symplectic gradient, of shape \<open>(1, 2)\<close>, while
  \<^verbatim>\<open>HNN.hamiltonian\<close> returns one number, of shape \<open>(1,)\<close>.
\<close>

theorem forward_eval_mode_returns_gradient:
  "\<not> training (eval_mode hnn2) \<and>
   fst (forward True (eval_mode hnn2) batch2) =
     Inr \<lparr>shape = [1, 2], data = [5, -3], requires_grad = True\<rparr> \<and>
   hamiltonian True (eval_mode hnn2) batch2 =
     Inr \<lparr>shape = [1], data = [7], requires_grad = True\<rparr> \<and>
   fst (forward True (eval_mode hnn2) batch2) \<noteq> hamiltonian True (eval_mode hnn2) batch2"
  by (simp add: forward_def symplectic_gradient_def hamiltonian_def eval_mode_def Let_def
      hnn2_def batch2_def net_call_def linear_net_def squeeze_last_def tensor_rows_def n_rows_def
      autograd_grad_def grad_tensor_def tsum_def slice_to_def slice_from_def neg_def
      cat_last_def set_requires_grad_def)

text \<open>
  Claim C2. In training mode \<^verbatim>\<open>HNN.forward\<close> returns what
  \<^verbatim>\<open>HNN.symplectic_gradient\<close> returns, in either gradient mode, and on an input whose
  last axis has the network's input width that is, with the gradient mode on, a tensor of
  the shape of the input.
\<close>

theorem forward_training_mode:
  assumes "training m" and "shape z \<noteq> []" and "last (shape z) = d_input (net m)"
  shows "forward ge m z = symplectic_gradient ge m z \<and>
         (\<exists>out. fst (forward True m z) = Inr out \<and> shape out = shape z)"
  using sg_shape [OF assms(2,3)] by (simp add: forward_def)

theorem forward_training_mode_witness:
  "training hnn2 \<and> shape batch2 \<noteq> [] \<and> last (shape batch2) = d_input (net hnn2) \<and>
   forward True hnn2 batch2 = symplectic_gradient True hnn2 batch2 \<and>
   (\<exists>out. fst (forward True hnn2 batch2) = Inr out \<and> shape out = shape batch2)"
proof -
  have h1: "training hnn2"
    by (simp add: hnn2_def)
  have h2: "shape batch2 \<noteq> []"
    by (simp add: batch2_def)
  have h3: "last (shape batch2) = d_input (net hnn2)"
    by (simp add: hnn2_def batch2_def linear_net_def)
  show ?thesis
    using forward_training_mode [OF h1 h2 h3] h1 h2 h3 by blast
qed

text \<open>
  Claim C3. On an input whose last axis has the even size \<open>2 * k\<close>,
  \<^verbatim>\<open>HNN.symplectic_gradient\<close> (with the gradient mode on) takes the gradient \<open>g\<close> of the summed energy with
  respect to the input (each element of \<open>g\<close> is the derivative of the summed energy by the
  element of the input at that place), cuts every row of \<open>g\<close> into its first \<open>k\<close>
  elements \<open>dH_dq\<close> and its last \<open>k\<close> elements \<open>dH_dp\<close>, and returns the
  concatenation of \<open>dH_dp\<close> and \<open>- dH_dq\<close> along the last axis: column \<open>j\<close> of the
  result is column \<open>k + j\<close> of \<open>g\<close>, and column \<open>k + j\<close> is minus column \<open>j\<close>.
\<close>

theorem symplectic_gradient_hamilton_equations:
  fixes m :: "real hnn"
  assumes "wf_tensor z" and "shape z \<noteq> []" and "last (shape z) = 2 * k"
    and "d_input (net m) = 2 * k" and "mlp_ok (net m)" and "partial_derivatives (net m)"
  shows "\<exists>dH_dq dH_dp out.
           (\<forall>r<n_rows z. \<forall>j<2 * k.
              ((\<lambda>x. total_energy m (set_entry z r j x)) has_field_derivative
                 entry (grad_tensor (net m) z) r j) (at (entry z r j))) \<and>
           slice_to k (grad_tensor (net m) z) = Inr dH_dq \<and>
           slice_from k (grad_tensor (net m) z) = Inr dH_dp \<and>
           tensor_rows dH_dq = map (take k) (tensor_rows (grad_tensor (net m) z)) \<and>
           tensor_rows dH_dp = map (drop k) (tensor_rows (grad_tensor (net m) z)) \<and>
           fst (symplectic_gradient True m z) = cat_last dH_dp (neg dH_dq) \<and>
           fst (symplectic_gradient True m z) = Inr out \<and>
           (\<forall>r<n_rows z. \<forall>j<k.
              entry out r j = entry (grad_tensor (net m) z) r (k + j) \<and>
              entry out r (k + j) = - entry (grad_tensor (net m) z) r j)"
proof -
  let ?g = "grad_tensor (net m) z"
  have w: "last (shape z) = d_input (net m)"
    using assms(3,4) by simp
  have grad: "\<forall>r<n_rows z. \<forall>j<2 * k.
              ((\<lambda>x. total_energy m (set_entry z r j x)) has_field_derivative
                 entry ?g r j) (at (entry z r j))"
  proof (intro allI impI)
    fix r j
    assume r: "r < n_rows z" and "j < 2 * k"
    then have j: "j < d_input (net m)"
      using assms(4) by simp
    show "((\<lambda>x. total_energy m (set_entry z r j x)) has_field_derivative
             entry ?g r j) (at (entry z r j))"
      by (rule grad_tensor_is_gradient_of_sum [OF assms(1,2) w assms(5,6) r j])
  qed
  obtain dq dp out where
    1: "slice_to k ?g = Inr dq" and
    2: "slice_from k ?g = Inr dp" and
    3: "tensor_rows dq = map (take k) (tensor_rows ?g)" and
    4: "tensor_rows dp = map (drop k) (tensor_rows ?g)" and
    5: "fst (symplectic_gradient True m z) = cat_last dp (neg dq)" and
    6: "fst (symplectic_gradient True m z) = Inr out" and
    7: "\<forall>r<n_rows z. \<forall>j<k.
              entry out r j = entry ?g r (k + j) \<and> entry out r (k + j) = - entry ?g r j"
    using sg_hamilton [OF assms(1-5)] by (elim exE conjE)
  have "(\<forall>r<n_rows z. \<forall>j<2 * k.
              ((\<lambda>x. total_energy m (set_entry z r j x)) has_field_derivative
                 entry ?g r j) (at (entry z r j))) \<and>
           slice_to k ?g = Inr dq \<and>
           slice_from k ?g = Inr dp \<and>
           tensor_rows dq = map (take k) (tensor_rows ?g) \<and>
           tensor_rows dp = map (drop k) (tensor_rows ?g) \<and>
           fst (symplectic_gradient True m z) = cat_last dp (neg dq) \<and>
           fst (symplectic_gradient True m z) = Inr out \<and>
           (\<forall>r<n_rows z. \<forall>j<k.
              entry out r j = entry ?g r (k + j) \<and> entry out r (k + j) = - entry ?g r j)"
    by (intro conjI grad 1 2 3 4 5 6 7)
  then show ?thesis
    by (intro exI)
qed

theorem symplectic_gradient_hamilton_equations_witness:
  "wf_tensor batch2 \<and> shape batch2 \<noteq> [] \<and> last (shape batch2) = 2 * 1 \<and>
   d_input (net hnn2) = 2 * 1 \<and> mlp_ok (net hnn2) \<and> partial_derivatives (net hnn2) \<and>
   0 < n_rows batch2 \<and>
   (\<exists>out. fst (symplectic_gradient True hnn2 batch2) = Inr out \<and>
      entry out 0 0 = entry (grad_tensor (net hnn2) batch2) 0 1 \<and>
      entry out 0 1 = - entry (grad_tensor (net hnn2) batch2) 0 0) \<and>
   ((\<lambda>x. total_energy hnn2 (set_entry batch2 0 1 x)) has_field_derivative
      entry (grad_tensor (net hnn2) batch2) 0 1) (at (entry batch2 0 1))"
proof -
  have h1: "wf_tensor batch2"
    by (simp add: wf_tensor_def batch2_def)
  have h2: "shape batch2 \<noteq> []"
    by (simp add: batch2_def)
  have h3: "last (shape batch2) = 2 * 1"
    by (simp add: batch2_def)
  have h4: "d_input (net hnn2) = 2 * 1"
    by (simp add: hnn2_def linear_net_def)
  have h5: "mlp_ok (net hnn2)"
    by (simp add: mlp_ok_def hnn2_def linear_net_def)
  have h6: "partial_derivatives (net hnn2)"
    by (simp add: hnn2_def linear_net2_partial_derivatives)
  have h7: "0 < n_rows batch2"
    by (simp add: n_rows_def batch2_def)
  obtain dq dp out where
    d: "\<forall>r<n_rows batch2. \<forall>j<2 * 1.
          ((\<lambda>x. total_energy hnn2 (set_entry batch2 r j x)) has_field_derivative
             entry (grad_tensor (net hnn2) batch2) r j) (at (entry batch2 r j))" and
    o: "fst (symplectic_gradient True hnn2 batch2) = Inr out" and
    e: "\<forall>r<n_rows batch2. \<forall>j<1.
          entry out r j = entry (grad_tensor (net hnn2) batch2) r (1 + j) \<and>
          entry out r (1 + j) = - entry (grad_tensor (net hnn2) batch2) r j"
    using symplectic_gradient_hamilton_equations [OF h1 h2 h3 h4 h5 h6] by (elim exE conjE)
  have e0: "entry out 0 0 = entry (grad_tensor (net hnn2) batch2) 0 1 \<and>
            entry out 0 1 = - entry (grad_tensor (net hnn2) batch2) 0 0"
    using e h7 by force
  have ex: "\<exists>out. fst (symplectic_gradient True hnn2 batch2) = Inr out \<and>
      entry out 0 0 = entry (grad_tensor (net hnn2) batch2) 0 1 \<and>
      entry out 0 1 = - entry (grad_tensor (net hnn2) batch2) 0 0"
    using o e0 by blast
  have d1: "((\<lambda>x. total_energy hnn2 (set_entry batch2 0 1 x)) has_field_derivative
      entry (grad_tensor (net hnn2) batch2) 0 1) (at (entry batch2 0 1))"
    using d h7 by simp
  show ?thesis
    by (intro conjI h1 h2 h3 h4 h5 h6 h7 ex d1)
qed

text \<open>
  Claim C4. On an input whose last axis has an even size \<open>2 * k\<close>, the input width of
  the network, \<^verbatim>\<open>HNN.symplectic_gradient\<close> (with the gradient mode on) returns a
  tensor of exactly the shape of the input.
\<close>

theorem symplectic_gradient_shape_even:
  assumes "shape z \<noteq> []" and "last (shape z) = 2 * k" and "d_input (net m) = 2 * k"
  shows "\<exists>out. fst (symplectic_gradient True m z) = Inr out \<and> shape out = shape z"
  using assms by (intro sg_shape) simp_all

theorem symplectic_gradient_shape_even_witness:
  "shape batch2 \<noteq> [] \<and> last (shape batch2) = 2 * 1 \<and> d_input (net hnn2) = 2 * 1 \<and>
   (\<exists>out. fst (symplectic_gradient True hnn2 batch2) = Inr out \<and> shape out = shape batch2)"
proof -
  have h1: "shape batch2 \<noteq> []"
    by (simp add: batch2_def)
  have h2: "last (shape batch2) = 2 * 1"
    by (simp add: batch2_def)
  have h3: "d_input (net hnn2) = 2 * 1"
    by (simp add: hnn2_def linear_net_def)
  show ?thesis
    using symplectic_gradient_shape_even [OF h1 h2 h3] h1 h2 h3 by simp
qed




text \<open>
  Claim C6. The shape and the elements that \<^verbatim>\<open>HNN.hamiltonian\<close> returns, or the
  error it raises, are the same for an input with gradient tracking and for the same input
  without it, in either gradient mode.
\<close>

theorem hamiltonian_ignores_requires_grad:
  "map_sum id host_values (hamiltonian ge m (z\<lparr>requires_grad := True\<rparr>)) =
   map_sum id host_values (hamiltonian ge m (z\<lparr>requires_grad := False\<rparr>))"
  by (simp add: hamiltonian_def net_call_def squeeze_last_def host_values_def tensor_rows_def
      n_rows_def)

theorem hamiltonian_ignores_requires_grad_witness:
  "map_sum id host_values (hamiltonian True hnn2 (batch2\<lparr>requires_grad := True\<rparr>)) =
     Inr \<lparr>nd_shape = [1], nd_data = [7]\<rparr> \<and>
   map_sum id host_values (hamiltonian True hnn2 (batch2\<lparr>requires_grad := False\<rparr>)) =
     Inr \<lparr>nd_shape = [1], nd_data = [7]\<rparr>"
proof -
  have "map_sum id host_values (hamiltonian True hnn2 (batch2\<lparr>requires_grad := False\<rparr>)) =
          Inr \<lparr>nd_shape = [1], nd_data = [7]\<rparr>"
    by (simp add: hamiltonian_def hnn2_def batch2_def net_call_def linear_net_def
        squeeze_last_def tensor_rows_def n_rows_def host_values_def)
  then show ?thesis
    using hamiltonian_ignores_requires_grad [where ge = True and m = hnn2 and z = batch2] by simp
qed

text \<open>
  Claim C7. \<^verbatim>\<open>HNNModel.predict_hamiltonian\<close> returns, as a host array, what
  \<^verbatim>\<open>HNN.hamiltonian\<close> returns on the converted input, and leaves the module in
  evaluation mode with its network unchanged; for an input of shape
  \<open>(n, d_input)\<close> the result has shape \<open>(n,)\<close> and \<open>n\<close> elements.
\<close>

theorem predict_hamiltonian_roundtrip:
  "fst (predict_hamiltonian ge conv self X) =
     map_sum id host_values (hamiltonian ge (model self) (torch_tensor conv X)) \<and>
   snd (predict_hamiltonian ge conv self X) = self\<lparr>model := eval_mode (model self)\<rparr> \<and>
   net (model (snd (predict_hamiltonian ge conv self X))) = net (model self) \<and>
   (nd_shape X = [n, d_input (net (model self))] \<longrightarrow>
      (\<exists>H. fst (predict_hamiltonian ge conv self X) = Inr H \<and> nd_shape H = [n] \<and>
           length (nd_data H) = n))"
proof -
  let ?t = "torch_tensor conv X"
  have a: "fst (predict_hamiltonian ge conv self X) =
             map_sum id host_values (hamiltonian ge (model self) ?t)"
    by (cases "hamiltonian ge (model self) ?t")
      (simp_all add: predict_hamiltonian_def Let_def eval_mode_def hamiltonian_mode
        numpy_def host_values_def cpu_def detach_def)
  have b: "snd (predict_hamiltonian ge conv self X) = self\<lparr>model := eval_mode (model self)\<rparr>"
    by (simp add: predict_hamiltonian_def Let_def)
  have c: "net (model (snd (predict_hamiltonian ge conv self X))) = net (model self)"
    by (simp add: b eval_mode_def)
  have d: "\<exists>H. fst (predict_hamiltonian ge conv self X) = Inr H \<and> nd_shape H = [n] \<and>
             length (nd_data H) = n"
    if sh: "nd_shape X = [n, d_input (net (model self))]"
  proof -
    have s: "shape ?t \<noteq> []" and w: "last (shape ?t) = d_input (net (model self))"
      using sh by (simp_all add: torch_tensor_def)
    have "n_rows ?t = n"
      using sh by (simp add: n_rows_def torch_tensor_def)
    then show ?thesis
      using sh unfolding a hamiltonian_ok [OF s w]
      by (simp add: host_values_def length_tensor_rows) (simp add: torch_tensor_def)
  qed
  show ?thesis
    using a b c d by blast
qed

theorem predict_hamiltonian_roundtrip_witness:
  "nd_shape array2 = [2, d_input (net (model model2))] \<and>
   fst (predict_hamiltonian True real_of_int model2 array2) =
     map_sum id host_values (hamiltonian True (model model2) (torch_tensor real_of_int array2)) \<and>
   fst (predict_hamiltonian True real_of_int model2 array2) = Inr \<lparr>nd_shape = [2], nd_data = [20, 137]\<rparr>"
proof -
  have h: "nd_shape array2 = [2, d_input (net (model model2))]"
    by (simp add: array2_def model2_def hnn2_def linear_net_def)
  have v: "map_sum id host_values (hamiltonian True (model model2) (torch_tensor real_of_int array2)) =
             Inr \<lparr>nd_shape = [2], nd_data = [20, 137]\<rparr>"
    by (simp add: hamiltonian_def model2_def hnn2_def array2_def net_call_def linear_net_def
        squeeze_last_def tensor_rows_def n_rows_def host_values_def torch_tensor_def rows_numeral)
  show ?thesis
    using predict_hamiltonian_roundtrip
      [where ge = True and conv = real_of_int and self = model2 and X = array2 and n = 2] h v by simp
qed

text \<open>
  Claim C8. On an input whose last axis has an odd size \<open>N\<close>, the network's input
  width, \<^verbatim>\<open>HNN.symplectic_gradient\<close> (with the gradient mode on) raises nothing: it
  cuts the gradient at
  \<open>N div 2\<close>, so that \<open>dH_dq\<close> has the first \<open>N div 2\<close> columns and \<open>dH_dp\<close> the
  remaining \<open>N div 2 + 1\<close>, and returns their concatenation as for an even size.
\<close>

theorem symplectic_gradient_odd_dimension:
  assumes "wf_tensor z" and "shape z \<noteq> []" and "odd (last (shape z))"
    and "last (shape z) = d_input (net m)" and "mlp_ok (net m)"
  shows "\<exists>dH_dq dH_dp out.
           slice_to (last (shape z) div 2) (grad_tensor (net m) z) = Inr dH_dq \<and>
           slice_from (last (shape z) div 2) (grad_tensor (net m) z) = Inr dH_dp \<and>
           last (shape dH_dq) = last (shape z) div 2 \<and>
           last (shape dH_dp) = last (shape z) div 2 + 1 \<and>
           tensor_rows dH_dq =
             map (take (last (shape z) div 2)) (tensor_rows (grad_tensor (net m) z)) \<and>
           tensor_rows dH_dp =
             map (drop (last (shape z) div 2)) (tensor_rows (grad_tensor (net m) z)) \<and>
           fst (symplectic_gradient True m z) = cat_last dH_dp (neg dH_dq) \<and>
           fst (symplectic_gradient True m z) = Inr out \<and>
           shape out = shape z \<and>
           tensor_rows out =
             map (\<lambda>g. drop (last (shape z) div 2) g @ map uminus (take (last (shape z) div 2) g))
                 (tensor_rows (grad_tensor (net m) z))"
proof -
  let ?k = "last (shape z) div 2"
  let ?g = "grad_tensor (net m) z"
  obtain dq dp where
    dq: "slice_to ?k ?g = Inr dq" and
    dp: "slice_from ?k ?g = Inr dp" and
    sg: "fst (symplectic_gradient True m z) = cat_last dp (neg dq)"
    using sg_steps [OF assms(2,4)] by blast
  have gs: "shape ?g = shape z"
    by (simp add: grad_tensor_def)
  have gr: "tensor_rows ?g = map (grad_fn (net m)) (tensor_rows z)"
    by (rule grad_tensor_rows [OF assms(1,2,4,5)])
  have gw: "\<forall>r\<in>set (tensor_rows ?g). length r = last (shape ?g)"
    using assms(4,5) tensor_rows_width [OF assms(1,2)] by (auto simp: gr gs mlp_ok_def)
  have gne: "shape ?g \<noteq> []"
    using assms(2) gs by simp
  note q = slice_to_rows [OF gne gw dq]
  note p = slice_from_rows [OF gne gw dp]
  have wq: "last (shape dq) = ?k"
    by (simp add: q gs)
  have "last (shape z) - ?k = ?k + 1"
    using assms(3) by presburger
  then have wp: "last (shape dp) = ?k + 1"
    by (simp add: p gs)
  obtain out where out: "fst (symplectic_gradient True m z) = Inr out"
    and so: "shape out = shape z"
    and rows_out: "tensor_rows out =
             map (\<lambda>r. drop ?k (grad_fn (net m) r) @ map uminus (take ?k (grad_fn (net m) r)))
                 (tensor_rows z)"
    using sg_rows [OF assms(1,2,4,5)] by blast
  have ro: "tensor_rows out = map (\<lambda>g. drop ?k g @ map uminus (take ?k g)) (tensor_rows ?g)"
    by (simp add: rows_out gr o_def)
  show ?thesis
    using dq dp wq wp q(2) p(2) sg out so ro unfolding gs by blast
qed

theorem symplectic_gradient_odd_dimension_witness:
  "wf_tensor batch3 \<and> shape batch3 \<noteq> [] \<and> odd (last (shape batch3)) \<and>
   last (shape batch3) = d_input (net hnn3) \<and> mlp_ok (net hnn3) \<and>
   last (shape batch3) div 2 = 1 \<and>
   (\<exists>dH_dq dH_dp out.
      slice_to 1 (grad_tensor (net hnn3) batch3) = Inr dH_dq \<and>
      slice_from 1 (grad_tensor (net hnn3) batch3) = Inr dH_dp \<and>
      last (shape dH_dq) = 1 \<and> last (shape dH_dp) = 2 \<and>
      fst (symplectic_gradient True hnn3 batch3) = Inr out \<and> shape out = [2, 3])"
proof -
  have h1: "wf_tensor batch3"
    by (simp add: wf_tensor_def batch3_def)
  have h2: "shape batch3 \<noteq> []"
    by (simp add: batch3_def)
  have h3: "odd (last (shape batch3))"
    by (simp add: batch3_def)
  have h4: "last (shape batch3) = d_input (net hnn3)"
    by (simp add: hnn3_def batch3_def linear_net_def)
  have h5: "mlp_ok (net hnn3)"
    by (simp add: mlp_ok_def hnn3_def linear_net_def)
  have k: "last (shape batch3) div 2 = 1" and s: "shape batch3 = [2, 3]"
    by (simp_all add: batch3_def)
  obtain dq dp out where
    "slice_to (last (shape batch3) div 2) (grad_tensor (net hnn3) batch3) = Inr dq"
    "slice_from (last (shape batch3) div 2) (grad_tensor (net hnn3) batch3) = Inr dp"
    "last (shape dq) = last (shape batch3) div 2"
    "last (shape dp) = last (shape batch3) div 2 + 1"
    "fst (symplectic_gradient True hnn3 batch3) = Inr out"
    "shape out = shape batch3"
    using symplectic_gradient_odd_dimension [OF h1 h2 h3 h4 h5] by (elim exE conjE)
  then have "slice_to 1 (grad_tensor (net hnn3) batch3) = Inr dq \<and>
      slice_from 1 (grad_tensor (net hnn3) batch3) = Inr dp \<and>
      last (shape dq) = 1 \<and> last (shape dp) = 2 \<and>
      fst (symplectic_gradient True hnn3 batch3) = Inr out \<and> shape out = [2, 3]"
    by (simp add: k s)
  then have ex: "\<exists>dH_dq dH_dp out.
      slice_to 1 (grad_tensor (net hnn3) batch3) = Inr dH_dq \<and>
      slice_from 1 (grad_tensor (net hnn3) batch3) = Inr dH_dp \<and>
      last (shape dH_dq) = 1 \<and> last (shape dH_dp) = 2 \<and>
      fst (symplectic_gradient True hnn3 batch3) = Inr out \<and> shape out = [2, 3]"
    by (intro exI)
  show ?thesis
    by (intro conjI h1 h2 h3 h4 h5 k ex)
qed

text \<open>
  Claim C9. For every size of the last axis, even or odd, the widths of the two slices add
  up to that size and the tensor that \<^verbatim>\<open>HNN.symplectic_gradient\<close> returns (with
  the gradient mode on) has the shape of the input.
\<close>

theorem symplectic_gradient_shape_any:
  assumes "shape z \<noteq> []" and "last (shape z) = d_input (net m)"
  shows "\<exists>dH_dq dH_dp out.
           slice_to (last (shape z) div 2) (grad_tensor (net m) z) = Inr dH_dq \<and>
           slice_from (last (shape z) div 2) (grad_tensor (net m) z) = Inr dH_dp \<and>
           last (shape dH_dp) + last (shape (neg dH_dq)) = last (shape z) \<and>
           fst (symplectic_gradient True m z) = cat_last dH_dp (neg dH_dq) \<and>
           fst (symplectic_gradient True m z) = Inr out \<and>
           shape out = shape z"
proof -
  obtain dq dp where
    dq: "slice_to (last (shape z) div 2) (grad_tensor (net m) z) = Inr dq" and
    dp: "slice_from (last (shape z) div 2) (grad_tensor (net m) z) = Inr dp" and
    sg: "fst (symplectic_gradient True m z) = cat_last dp (neg dq)"
    using sg_steps [OF assms] by blast
  have g: "shape (grad_tensor (net m) z) = shape z"
    by (simp add: grad_tensor_def)
  have sq: "last (shape (neg dq)) = min (last (shape z) div 2) (last (shape z))"
    using dq assms(1) g by (auto simp: slice_to_def neg_shape)
  have sp: "last (shape dp) = last (shape z) - last (shape z) div 2"
    using dp assms(1) g by (auto simp: slice_from_def)
  have "last (shape dp) + last (shape (neg dq)) = last (shape z)"
    unfolding sq sp by simp
  then show ?thesis
    using dq dp sg sg_shape [OF assms] by auto
qed

theorem symplectic_gradient_shape_any_witness:
  "shape batch3 = [2, 3] \<and> last (shape batch3) = d_input (net hnn3) \<and>
   (\<exists>out. fst (symplectic_gradient True hnn3 batch3) = Inr out \<and> shape out = [2, 3])"
proof -
  have h1: "shape batch3 \<noteq> []"
    by (simp add: batch3_def)
  have h2: "last (shape batch3) = d_input (net hnn3)"
    by (simp add: hnn3_def batch3_def linear_net_def)
  have h3: "shape batch3 = [2, 3]"
    by (simp add: batch3_def)
  show ?thesis
    using symplectic_gradient_shape_any [OF h1 h2] h2 h3 by auto
qed

text \<open>
  Claim C10. In either gradient mode: when the caller's tensor is not tracked,
  \<^verbatim>\<open>HNN.symplectic_gradient\<close>
  leaves it with \<^verbatim>\<open>requires_grad\<close> set and otherwise as it was; when the tensor is
  tracked already, the call leaves it unchanged.
\<close>

theorem symplectic_gradient_mutates_input:
  "(\<not> requires_grad z \<longrightarrow>
      snd (symplectic_gradient ge m z) = z\<lparr>requires_grad := True\<rparr> \<and>
      requires_grad (snd (symplectic_gradient ge m z))) \<and>
   (requires_grad z \<longrightarrow> snd (symplectic_gradient ge m z) = z)"
  by (simp add: sg_caller_tensor)

theorem symplectic_gradient_mutates_input_witness:
  "\<not> requires_grad batch2 \<and>
   snd (symplectic_gradient True hnn2 batch2) =
     \<lparr>shape = [1, 2], data = [1/2, -3/10], requires_grad = True\<rparr> \<and>
   requires_grad batch3 \<and> snd (symplectic_gradient False hnn3 batch3) = batch3"
  using symplectic_gradient_mutates_input [where z = batch2 and m = hnn2 and ge = True]
    symplectic_gradient_mutates_input [where z = batch3 and m = hnn3 and ge = False]
  by (simp add: batch2_def batch3_def)

end
